theory Spec2Isabelle
  imports Main "HOL-Library.List_Lexorder"
begin

section \<open>JavaScript values\<close>

text \<open>
  A JavaScript string is a sequence of UTF-16 code units; it is modelled as the list of
  its code units. The relational operators on two strings compare them lexicographically
  by code unit, which is the order of \<open>HOL-Library.List_Lexorder\<close> on \<open>nat list\<close>.
  Identifiers and counter values are JavaScript numbers holding integers; they are
  modelled as \<open>int\<close>, and the sum of two of them by \<open>js_add\<close> below.
\<close>

type_synonym jsstring = "nat list"

definition js :: "string \<Rightarrow> jsstring" where
  "js s = map of_char s"

text \<open>
  A JavaScript number is an IEEE-754 double. Every integer of magnitude up to \<open>2^53\<close>
  is a double; from there on the doubles are the multiples of a spacing that starts at 2
  and doubles with every further power of two (\<open>ulp\<close>). The \<^verbatim>\<open>+\<close> of two numbers
  holding integers is the double nearest to the exact sum, and of two equally near
  doubles the one with the even significand. Adding 1 never overflows.
\<close>

fun ulp :: "nat \<Rightarrow> nat" where
  "ulp m = (if m < 2 ^ 53 then 1 else 2 * ulp (m div 2))"

declare ulp.simps [simp del]

definition round_double :: "int \<Rightarrow> int" where
  "round_double x =
     (let m = nat \<bar>x\<bar>; u = ulp m; q = m div u; r = m mod u
      in sgn x * int (if 2 * r < u \<or> (2 * r = u \<and> even q) then q * u else (q + 1) * u))"

definition js_add :: "int \<Rightarrow> int \<Rightarrow> int" where
  "js_add a b = round_double (a + b)"

text \<open>
  \<^verbatim>\<open>String.prototype.trim\<close> removes the leading and trailing code units that are
  WhiteSpace or LineTerminator in ECMAScript: TAB, LF, VT, FF, CR, SP, NBSP, the
  Unicode space separators (U+1680, U+2000 to U+200A, U+202F, U+205F, U+3000),
  LS, PS and the byte order mark.
\<close>

definition isWhiteSpace :: "nat \<Rightarrow> bool" where
  "isWhiteSpace u \<longleftrightarrow>
     u \<in> {9, 10, 11, 12, 13, 32, 160, 5760, 8232, 8233, 8239, 8287, 12288, 65279}
     \<or> (8192 \<le> u \<and> u \<le> 8202)"

definition trim :: "jsstring \<Rightarrow> jsstring" where
  "trim s = rev (dropWhile isWhiteSpace (rev (dropWhile isWhiteSpace s)))"

text \<open>
  \<^verbatim>\<open>element?.value.trim()\<close>: \<open>None\<close> stands for \<^verbatim>\<open>undefined\<close>, the result when the
  element is missing from the page. A string or \<^verbatim>\<open>undefined\<close> is falsy exactly when
  it is \<^verbatim>\<open>undefined\<close> or the empty string.
\<close>

definition trimmed_value :: "jsstring option \<Rightarrow> jsstring option" where
  "trimmed_value v = map_option trim v"

definition falsy :: "jsstring option \<Rightarrow> bool" where
  "falsy v \<longleftrightarrow> (case v of None \<Rightarrow> True | Some s \<Rightarrow> s = [])"

text \<open>
  \<^verbatim>\<open>new Blob([s]).size\<close> is the length of the UTF-8 encoding of \<open>s\<close>: one byte below
  U+0080, two below U+0800, four for a surrogate pair, three otherwise (a lone
  surrogate is replaced by U+FFFD).
\<close>

definition unit_bytes :: "nat \<Rightarrow> int" where
  "unit_bytes u = (if u < 128 then 1 else if u < 2048 then 2 else 3)"

fun blob_size :: "jsstring \<Rightarrow> int" where
  "blob_size [] = 0"
| "blob_size [u] = unit_bytes u"
| "blob_size (u # v # us) =
     (if 55296 \<le> u \<and> u < 56320 \<and> 56320 \<le> v \<and> v < 57344
      then 4 + blob_size us
      else unit_bytes u + blob_size (v # us))"

section \<open>Data model\<close>

text \<open>
  The records of the two object stores share the key path \<^verbatim>\<open>id\<close> and the field
  \<^verbatim>\<open>createdAt\<close>. The fields \<^verbatim>\<open>id\<close>, \<^verbatim>\<open>text\<close> and \<^verbatim>\<open>file\<close> carry a prime, and the
  fields of the file object the prefix \<open>file_\<close>, because the plain names are taken.
  \<^verbatim>\<open>text\<close> is \<open>None\<close> when it is \<^verbatim>\<open>undefined\<close>, \<^verbatim>\<open>file\<close> is \<open>None\<close> when it is
  \<^verbatim>\<open>null\<close>, \<^verbatim>\<open>updatedAt\<close> is \<open>None\<close> while the property is missing.
\<close>

record entity =
  id' :: int
  createdAt :: jsstring

record project = entity +
  name :: jsstring

record fileData =
  file_name :: jsstring
  file_type :: jsstring
  file_size :: int
  file_content :: jsstring
  extension :: jsstring
  isImage :: bool

record content = entity +
  projectId :: int
  text' :: "jsstring option"
  file' :: "fileData option"
  updatedAt :: "jsstring option"

text \<open>A row of the store \<^verbatim>\<open>counters\<close> is \<^verbatim>\<open>{ name, value }\<close>, kept as a pair.\<close>

type_synonym counter = "jsstring \<times> int"

section \<open>The platform: IndexedDB object stores and transactions\<close>

text \<open>
  An object store holds at most one record per key and lists its records in ascending
  key order. It is modelled as the list of its records in that order, with the key path
  as a function. \<^verbatim>\<open>put\<close> inserts the record or replaces the record of the same key,
  \<^verbatim>\<open>delete\<close> of a key that is not stored succeeds and changes nothing. An index lists
  the records of one index key in primary key order.
\<close>

fun store_put :: "('r \<Rightarrow> 'k::linorder) \<Rightarrow> 'r \<Rightarrow> 'r list \<Rightarrow> 'r list" where
  "store_put key r [] = [r]"
| "store_put key r (x # xs) =
     (if key r < key x then r # x # xs
      else if key r = key x then r # xs
      else x # store_put key r xs)"

definition store_get :: "('r \<Rightarrow> 'k) \<Rightarrow> 'k \<Rightarrow> 'r list \<Rightarrow> 'r option" where
  "store_get key k xs = find (\<lambda>r. key r = k) xs"

definition store_delete :: "('r \<Rightarrow> 'k) \<Rightarrow> 'k \<Rightarrow> 'r list \<Rightarrow> 'r list" where
  "store_delete key k xs = filter (\<lambda>r. key r \<noteq> k) xs"

definition store_count :: "'r list \<Rightarrow> int" where
  "store_count xs = int (length xs)"

definition index_getAll :: "('r \<Rightarrow> 'v) \<Rightarrow> 'v \<Rightarrow> 'r list \<Rightarrow> 'r list" where
  "index_getAll path v xs = filter (\<lambda>r. path r = v) xs"

definition index_getAllKeys :: "('r \<Rightarrow> 'k) \<Rightarrow> ('r \<Rightarrow> 'v) \<Rightarrow> 'v \<Rightarrow> 'r list \<Rightarrow> 'k list" where
  "index_getAllKeys key path v xs = map key (index_getAll path v xs)"

text \<open>The well-formed stores: strictly ascending keys.\<close>

definition store_ok :: "('r \<Rightarrow> 'k::linorder) \<Rightarrow> 'r list \<Rightarrow> bool" where
  "store_ok key xs \<longleftrightarrow> sorted_wrt (<) (map key xs)"

record db =
  projects_store :: "project list"
  content_store :: "content list"
  counters_store :: "counter list"

definition db_ok :: "db \<Rightarrow> bool" where
  "db_ok d \<longleftrightarrow> store_ok id' (projects_store d) \<and> store_ok id' (content_store d)
                \<and> store_ok fst (counters_store d)"

text \<open>
  A promise is settled with a value or with an error. \<open>StorageError\<close> stands for the
  \<^verbatim>\<open>request.error\<close> and \<^verbatim>\<open>transaction.error\<close> the database manager rejects with.
  \<open>ValidationError\<close> and \<open>NotFoundError\<close> are the other two failures of the
  specification's taxonomy; no code path of the repository constructs them.
\<close>

datatype error = StorageError | ValidationError | NotFoundError

datatype 'a settled = Resolved 'a | Rejected error

text \<open>
  Every method of the database manager runs one transaction. Whether the storage
  engine fails one of its requests is decided by the environment: \<open>Some k\<close> fails the
  request number \<open>k\<close> (from 0) of the transaction, if the transaction issues that many,
  \<open>None\<close> fails none. No handler of the code prevents the default of an error event, so
  a failed request aborts its transaction, and an aborted transaction leaves the
  database as it was when the transaction started.
\<close>

type_synonym fault = "nat option"

definition fails :: "fault \<Rightarrow> nat \<Rightarrow> bool" where
  "fails fault n = (case fault of None \<Rightarrow> False | Some k \<Rightarrow> k < n)"

section \<open>DatabaseManager\<close>

text \<open>\<^verbatim>\<open>onupgradeneeded\<close> on a fresh database: three stores, two seeded counters.\<close>

definition init_db :: db where
  "init_db = \<lparr>projects_store = [], content_store = [],
              counters_store = store_put fst (js ''contentId'', 1)
                                 (store_put fst (js ''projectId'', 1) [])\<rparr>"

definition getNextId :: "fault \<Rightarrow> jsstring \<Rightarrow> db \<Rightarrow> int settled \<times> db" where
  "getNextId fault counterName d =
     (let counter = (case store_get fst counterName (counters_store d) of
                       Some c \<Rightarrow> c
                     | None \<Rightarrow> (counterName, 1));
          nextId = snd counter;
          counter' = (fst counter, js_add nextId 1)
      in if fails fault 2 then (Rejected StorageError, d)
         else (Resolved nextId,
               d\<lparr>counters_store := store_put fst counter' (counters_store d)\<rparr>))"

definition saveProject :: "fault \<Rightarrow> project \<Rightarrow> db \<Rightarrow> project settled \<times> db" where
  "saveProject fault project d =
     (if fails fault 1 then (Rejected StorageError, d)
      else (Resolved project,
            d\<lparr>projects_store := store_put id' project (projects_store d)\<rparr>))"

definition getProject :: "fault \<Rightarrow> int \<Rightarrow> db \<Rightarrow> project option settled" where
  "getProject fault k d =
     (if fails fault 1 then Rejected StorageError
      else Resolved (store_get id' k (projects_store d)))"

definition getAllProjects :: "fault \<Rightarrow> db \<Rightarrow> project list settled" where
  "getAllProjects fault d =
     (if fails fault 1 then Rejected StorageError else Resolved (projects_store d))"

text \<open>
  \<^verbatim>\<open>deleteProject\<close> issues, in one transaction over both stores, the delete of the
  project, the read of the content keys of the project from the index, and one delete
  per key; it resolves when the transaction completes.
\<close>

definition deleteProject :: "fault \<Rightarrow> int \<Rightarrow> db \<Rightarrow> bool settled \<times> db" where
  "deleteProject fault k d =
     (let projects' = store_delete id' k (projects_store d);
          contentIds = index_getAllKeys id' projectId k (content_store d);
          content' = fold (store_delete id') contentIds (content_store d)
      in if fails fault (2 + length contentIds) then (Rejected StorageError, d)
         else (Resolved True, d\<lparr>projects_store := projects', content_store := content'\<rparr>))"

definition saveContent :: "fault \<Rightarrow> content \<Rightarrow> db \<Rightarrow> content settled \<times> db" where
  "saveContent fault c d =
     (if fails fault 1 then (Rejected StorageError, d)
      else (Resolved c, d\<lparr>content_store := store_put id' c (content_store d)\<rparr>))"

definition getProjectContent :: "fault \<Rightarrow> int \<Rightarrow> db \<Rightarrow> content list settled" where
  "getProjectContent fault k d =
     (if fails fault 1 then Rejected StorageError
      else Resolved (index_getAll projectId k (content_store d)))"

definition deleteContent :: "fault \<Rightarrow> int \<Rightarrow> db \<Rightarrow> bool settled \<times> db" where
  "deleteContent fault k d =
     (if fails fault 1 then (Rejected StorageError, d)
      else (Resolved True, d\<lparr>content_store := store_delete id' k (content_store d)\<rparr>))"

definition getTotalIdeasCount :: "fault \<Rightarrow> db \<Rightarrow> int settled" where
  "getTotalIdeasCount fault d =
     (if fails fault 1 then Rejected StorageError
      else Resolved (store_count (content_store d)))"



section \<open>ProjectManager and FileHandler\<close>

text \<open>
  The state of the page that the operations below read and write: the cached project
  list \<^verbatim>\<open>this.projects\<close>, \<^verbatim>\<open>this.currentProject\<close> and the file handler's
  \<^verbatim>\<open>currentFileContent\<close>. The database is not part of it: the page holds a connection
  to it. Rendering, focus handling and the edit-mode flags of the file handler are
  presentation state and are left out; the refresh methods \<^verbatim>\<open>updateDisplay\<close>,
  \<^verbatim>\<open>updateProjectDetail\<close> and \<^verbatim>\<open>updateStatistics\<close> only read the database and
  catch their own failures.
\<close>

record pm_state =
  projects :: "project list"
  currentProject :: "project option"
  currentFileContent :: "fileData option"

text \<open>
  What a call leaves behind: the settled promise of the \<^verbatim>\<open>async\<close> method, the message
  shown to the user, the state of the page and the database.
\<close>

datatype notice = Silent | Toast string | Alert string

record run =
  promise :: "unit settled"
  shown :: notice
  pm :: pm_state
  store :: db

definition returned :: "pm_state \<Rightarrow> db \<Rightarrow> run" where
  "returned p d = \<lparr>promise = Resolved (), shown = Silent, pm = p, store = d\<rparr>"

definition toast :: "string \<Rightarrow> pm_state \<Rightarrow> db \<Rightarrow> run" where
  "toast message p d = \<lparr>promise = Resolved (), shown = Toast message, pm = p, store = d\<rparr>"

definition alert :: "string \<Rightarrow> pm_state \<Rightarrow> db \<Rightarrow> run" where
  "alert message p d = \<lparr>promise = Resolved (), shown = Alert message, pm = p, store = d\<rparr>"

text \<open>
  The first argument of an operation gives the fault of each call of the database
  manager it makes, by position; \<open>now\<close> is \<^verbatim>\<open>new Date().toISOString()\<close>; the value
  of a form element is \<open>None\<close> when the element is missing.
\<close>

definition no_faults :: "nat \<Rightarrow> fault" where
  "no_faults k = None"

definition createProject ::
  "(nat \<Rightarrow> fault) \<Rightarrow> jsstring \<Rightarrow> jsstring option \<Rightarrow> pm_state \<Rightarrow> db \<Rightarrow> run" where
  "createProject F now projectInput p d =
     (case trimmed_value projectInput of
        None \<Rightarrow> returned p d
      | Some projectName \<Rightarrow>
          if projectName = [] then returned p d
          else (case getNextId (F 0) (js ''projectId'') d of
                  (Rejected e, d1) \<Rightarrow>
                    toast ''Failed to create project. Please try again.'' p d1
                | (Resolved nextId, d1) \<Rightarrow>
                    (let newProject = \<lparr>id' = nextId, createdAt = now, name = projectName\<rparr>
                     in case saveProject (F 1) newProject d1 of
                          (Rejected e, d2) \<Rightarrow>
                            toast ''Failed to create project. Please try again.'' p d2
                        | (Resolved saved, d2) \<Rightarrow>
                            returned (p\<lparr>projects := projects p @ [newProject]\<rparr>) d2)))"

definition addContent ::
  "(nat \<Rightarrow> fault) \<Rightarrow> jsstring \<Rightarrow> jsstring option \<Rightarrow> pm_state \<Rightarrow> db \<Rightarrow> run" where
  "addContent F now contentInput p d =
     (case currentProject p of
        None \<Rightarrow> returned p d
      | Some current \<Rightarrow>
          (let contentText = trimmed_value contentInput;
               fileContent = currentFileContent p
           in if falsy contentText \<and> fileContent = None then returned p d
              else (case getNextId (F 0) (js ''contentId'') d of
                      (Rejected e, d1) \<Rightarrow> toast ''Failed to add idea. Please try again.'' p d1
                    | (Resolved contentId, d1) \<Rightarrow>
                        (let newContent =
                               \<lparr>id' = contentId, createdAt = now, projectId = id' current,
                                text' = contentText,
                                file' = (case fileContent of
                                           Some f \<Rightarrow>
                                             Some \<lparr>file_name = file_name f,
                                                   file_type = file_type f,
                                                   file_size = file_size f,
                                                   file_content = file_content f,
                                                   extension = extension f,
                                                   isImage = (isImage f \<or> False)\<rparr>
                                         | None \<Rightarrow> None),
                                updatedAt = None\<rparr>
                         in case saveContent (F 1) newContent d1 of
                              (Rejected e, d2) \<Rightarrow>
                                toast ''Failed to add idea. Please try again.'' p d2
                            | (Resolved saved, d2) \<Rightarrow>
                                returned (p\<lparr>currentFileContent := None\<rparr>) d2))))"

definition openProject :: "(nat \<Rightarrow> fault) \<Rightarrow> int \<Rightarrow> pm_state \<Rightarrow> db \<Rightarrow> run" where
  "openProject F k p d =
     (case getProject (F 0) k d of
        Rejected e \<Rightarrow> toast ''Failed to open project.'' p d
      | Resolved None \<Rightarrow> returned p d
      | Resolved (Some project) \<Rightarrow> returned (p\<lparr>currentProject := Some project\<rparr>) d)"

text \<open>\<^verbatim>\<open>this.projects.find(p => p.id === projectId)\<close>, then the assignment to its name.\<close>

fun rename_local :: "int \<Rightarrow> jsstring \<Rightarrow> project list \<Rightarrow> project list" where
  "rename_local k n [] = []"
| "rename_local k n (x # xs) =
     (if id' x = k then x\<lparr>name := n\<rparr> # xs else x # rename_local k n xs)"

text \<open>\<^verbatim>\<open>prompt\<close> returns the text entered, or \<^verbatim>\<open>null\<close> (\<open>None\<close>) when it is cancelled.\<close>

definition editProject ::
  "(nat \<Rightarrow> fault) \<Rightarrow> jsstring option \<Rightarrow> int \<Rightarrow> pm_state \<Rightarrow> db \<Rightarrow> run" where
  "editProject F prompted k p d =
     (case getProject (F 0) k d of
        Rejected e \<Rightarrow> toast ''Failed to edit project.'' p d
      | Resolved None \<Rightarrow> returned p d
      | Resolved (Some project) \<Rightarrow>
          (case prompted of
             None \<Rightarrow> returned p d
           | Some newName \<Rightarrow>
               if newName \<noteq> [] \<and> trim newName \<noteq> [] then
                 (let project' = project\<lparr>name := trim newName\<rparr>
                  in case saveProject (F 1) project' d of
                       (Rejected e, d1) \<Rightarrow> toast ''Failed to edit project.'' p d1
                     | (Resolved saved, d1) \<Rightarrow>
                         returned
                           (p\<lparr>projects := rename_local k (name project') (projects p),
                              currentProject :=
                                (case currentProject p of
                                   None \<Rightarrow> None
                                 | Some c \<Rightarrow> if id' c = k then Some (c\<lparr>name := name project'\<rparr>)
                                              else Some c)\<rparr>)
                           d1)
               else returned p d))"

definition showMainView :: "pm_state \<Rightarrow> pm_state" where
  "showMainView p = p\<lparr>currentProject := None, currentFileContent := None\<rparr>"

text \<open>\<^verbatim>\<open>findIndex\<close> and \<^verbatim>\<open>splice(projectIndex, 1)\<close>: the first match leaves the list.\<close>

fun remove_local :: "int \<Rightarrow> project list \<Rightarrow> project list" where
  "remove_local k [] = []"
| "remove_local k (x # xs) = (if id' x = k then xs else x # remove_local k xs)"

text \<open>
  \<^verbatim>\<open>ProjectManager.deleteProject\<close> and \<^verbatim>\<open>ProjectManager.deleteContent\<close>; the prefix
  tells them from the methods of the database manager.
\<close>

definition pm_deleteProject :: "(nat \<Rightarrow> fault) \<Rightarrow> int \<Rightarrow> pm_state \<Rightarrow> db \<Rightarrow> run" where
  "pm_deleteProject F k p d =
     (let p1 = (case currentProject p of
                  None \<Rightarrow> p
                | Some c \<Rightarrow> if id' c = k then showMainView p else p)
      in case deleteProject (F 0) k d of
           (Rejected e, d1) \<Rightarrow> toast ''Failed to delete project.'' p1 d1
         | (Resolved ok, d1) \<Rightarrow>
             returned (p1\<lparr>projects := remove_local k (projects p1)\<rparr>) d1)"

definition saveContentEdit ::
  "(nat \<Rightarrow> fault) \<Rightarrow> jsstring \<Rightarrow> jsstring option \<Rightarrow> int \<Rightarrow> pm_state \<Rightarrow> db \<Rightarrow> run" where
  "saveContentEdit F now textarea contentId p d =
     (case currentProject p of
        None \<Rightarrow> returned p d
      | Some current \<Rightarrow>
          (case getProjectContent (F 0) (id' current) d of
             Rejected e \<Rightarrow> toast ''Failed to save content.'' p d
           | Resolved projectContent \<Rightarrow>
               (case find (\<lambda>c. id' c = contentId) projectContent of
                  None \<Rightarrow> returned p d
                | Some c \<Rightarrow>
                    (case textarea of
                       None \<Rightarrow> returned p d
                     | Some v \<Rightarrow>
                         (let newText = trim v
                          in if newText = [] \<and> file' c = None
                             then alert
                                    ''Content cannot be empty unless it has a file attachment!''
                                    p d
                             else (case saveContent (F 1)
                                          (c\<lparr>text' := Some newText, updatedAt := Some now\<rparr>) d of
                                     (Rejected e, d1) \<Rightarrow> toast ''Failed to save content.'' p d1
                                   | (Resolved saved, d1) \<Rightarrow> returned p d1))))))"

definition pm_deleteContent :: "(nat \<Rightarrow> fault) \<Rightarrow> int \<Rightarrow> pm_state \<Rightarrow> db \<Rightarrow> run" where
  "pm_deleteContent F contentId p d =
     (case currentProject p of
        None \<Rightarrow> returned p d
      | Some current \<Rightarrow>
          (case deleteContent (F 0) contentId d of
             (Rejected e, d1) \<Rightarrow> toast ''Failed to delete content.'' p d1
           | (Resolved ok, d1) \<Rightarrow> returned p d1))"

text \<open>
  \<^verbatim>\<open>FileHandler.saveContentFileEdit\<close>, with \<^verbatim>\<open>window.projectManager\<close> set as the
  application's start leaves it. Reading \<^verbatim>\<open>currentProject.id\<close> while no project is
  open throws inside the \<^verbatim>\<open>try\<close> block.
\<close>

definition saveContentFileEdit ::
  "(nat \<Rightarrow> fault) \<Rightarrow> jsstring \<Rightarrow> jsstring option \<Rightarrow> int \<Rightarrow> pm_state \<Rightarrow> db \<Rightarrow> run" where
  "saveContentFileEdit F now textarea contentId p d =
     (case textarea of
        None \<Rightarrow> returned p d
      | Some newFileContent \<Rightarrow>
          (case currentProject p of
             None \<Rightarrow> toast ''Failed to save file content.'' p d
           | Some current \<Rightarrow>
               (case getProjectContent (F 0) (id' current) d of
                  Rejected e \<Rightarrow> toast ''Failed to save file content.'' p d
                | Resolved projectContent \<Rightarrow>
                    (case find (\<lambda>c. id' c = contentId) projectContent of
                       None \<Rightarrow> returned p d
                     | Some c \<Rightarrow>
                         (case file' c of
                            None \<Rightarrow> returned p d
                          | Some f \<Rightarrow>
                              (case saveContent (F 1)
                                      (c\<lparr>file' := Some (f\<lparr>file_content := newFileContent,
                                                           file_size := blob_size newFileContent\<rparr>),
                                         updatedAt := Some now\<rparr>) d of
                                 (Rejected e, d1) \<Rightarrow> toast ''Failed to save file content.'' p d1
                               | (Resolved saved, d1) \<Rightarrow> toast ''File content saved!'' p d1))))))"

text \<open>
  A new page: the state the two constructors leave, on which \<^verbatim>\<open>init\<close> runs
  \<^verbatim>\<open>loadProjects\<close>. The file handler's changes of its current file (selection, edit,
  rename, reset, clear) are taken together as one assignment.
\<close>

definition start_pm :: pm_state where
  "start_pm = \<lparr>projects = [], currentProject = None, currentFileContent = None\<rparr>"

definition loadProjects :: "(nat \<Rightarrow> fault) \<Rightarrow> pm_state \<Rightarrow> db \<Rightarrow> run" where
  "loadProjects F p d =
     (case getAllProjects (F 0) d of
        Rejected e \<Rightarrow> toast ''Failed to load projects.'' (p\<lparr>projects := []\<rparr>) d
      | Resolved ps \<Rightarrow> returned (p\<lparr>projects := ps\<rparr>) d)"

definition setCurrentFile :: "fileData option \<Rightarrow> pm_state \<Rightarrow> pm_state" where
  "setCurrentFile f p = p\<lparr>currentFileContent := f\<rparr>"

section \<open>Runs of the application and of the database manager\<close>

datatype event =
    Init "nat \<Rightarrow> fault"
  | CreateProject "nat \<Rightarrow> fault" jsstring "jsstring option"
  | AddContent "nat \<Rightarrow> fault" jsstring "jsstring option"
  | OpenProject "nat \<Rightarrow> fault" int
  | EditProject "nat \<Rightarrow> fault" "jsstring option" int
  | DeleteProject "nat \<Rightarrow> fault" int
  | SaveContentEdit "nat \<Rightarrow> fault" jsstring "jsstring option" int
  | SaveContentFileEdit "nat \<Rightarrow> fault" jsstring "jsstring option" int
  | DeleteContent "nat \<Rightarrow> fault" int
  | ShowMainView
  | SetCurrentFile "fileData option"

fun fire :: "event \<Rightarrow> pm_state \<Rightarrow> db \<Rightarrow> run" where
  "fire (Init F) p d = loadProjects F start_pm d"
| "fire (CreateProject F now v) p d = createProject F now v p d"
| "fire (AddContent F now v) p d = addContent F now v p d"
| "fire (OpenProject F k) p d = openProject F k p d"
| "fire (EditProject F v k) p d = editProject F v k p d"
| "fire (DeleteProject F k) p d = pm_deleteProject F k p d"
| "fire (SaveContentEdit F now v k) p d = saveContentEdit F now v k p d"
| "fire (SaveContentFileEdit F now v k) p d = saveContentFileEdit F now v k p d"
| "fire (DeleteContent F k) p d = pm_deleteContent F k p d"
| "fire ShowMainView p d = returned (showMainView p) d"
| "fire (SetCurrentFile f) p d = returned (setCurrentFile f p) d"

text \<open>
  The states the application reaches from a fresh database, one user action after the
  other, whatever the storage engine fails.
\<close>

inductive app_reachable :: "pm_state \<Rightarrow> db \<Rightarrow> bool" where
  start: "app_reachable start_pm init_db"
| step: "app_reachable p d \<Longrightarrow> app_reachable (pm (fire e p d)) (store (fire e p d))"

text \<open>A sequence of user actions, from the first to the last.\<close>

fun run_events :: "event list \<Rightarrow> pm_state \<Rightarrow> db \<Rightarrow> pm_state \<times> db" where
  "run_events [] p d = (p, d)"
| "run_events (e # es) p d = run_events es (pm (fire e p d)) (store (fire e p d))"

text \<open>
  The databases that calls of the database manager's writing methods produce from a
  fresh database.
\<close>

inductive db_reachable :: "db \<Rightarrow> bool" where
  fresh: "db_reachable init_db"
| nextId: "db_reachable d \<Longrightarrow> db_reachable (snd (getNextId fault counterName d))"
| project_saved: "db_reachable d \<Longrightarrow> db_reachable (snd (saveProject fault project d))"
| project_deleted: "db_reachable d \<Longrightarrow> db_reachable (snd (deleteProject fault k d))"
| content_saved: "db_reachable d \<Longrightarrow> db_reachable (snd (saveContent fault c d))"
| content_deleted: "db_reachable d \<Longrightarrow> db_reachable (snd (deleteContent fault k d))"

section \<open>Notions of the specification\<close>

text \<open>The value the counter holds: the stored one, or 1 while no row exists.\<close>

definition stored_value :: "jsstring \<Rightarrow> db \<Rightarrow> int" where
  "stored_value counterName d =
     (case store_get fst counterName (counters_store d) of
        Some c \<Rightarrow> snd c
      | None \<Rightarrow> 1)"

text \<open>Successive calls of \<^verbatim>\<open>getNextId\<close> on one counter, the results in call order.\<close>

fun getNextIds :: "nat \<Rightarrow> jsstring \<Rightarrow> db \<Rightarrow> int list \<times> db" where
  "getNextIds 0 counterName d = ([], d)"
| "getNextIds (Suc n) counterName d =
     (case getNextId None counterName d of
        (Resolved v, d') \<Rightarrow> (let (vs, d'') = getNextIds n counterName d' in (v # vs, d''))
      | (Rejected e, d') \<Rightarrow> ([], d'))"

text \<open>
  The content invariant: non-empty text or a file. The recently active projects: the
  ids of the projects, and the project ids of the content records, stamped later than
  the cutoff.
\<close>

definition content_ok :: "content \<Rightarrow> bool" where
  "content_ok c \<longleftrightarrow> \<not> falsy (text' c) \<or> file' c \<noteq> None"

definition content_inv :: "db \<Rightarrow> bool" where
  "content_inv d \<longleftrightarrow> list_all content_ok (content_store d)"


text \<open>
  The record \<^verbatim>\<open>addContent\<close> builds for the project of id \<open>k\<close>: the next content id,
  the trimmed text and the file handler's current file.
\<close>

definition newContent :: "jsstring \<Rightarrow> jsstring option \<Rightarrow> pm_state \<Rightarrow> db \<Rightarrow> int \<Rightarrow> content" where
  "newContent now contentInput p d k =
     \<lparr>id' = stored_value (js ''contentId'') d, createdAt = now, projectId = k,
      text' = trimmed_value contentInput, file' = currentFileContent p, updatedAt = None\<rparr>"






section \<open>Example data\<close>

text \<open>A database whose content counter has arrived at \<open>2^53\<close>.\<close>

definition stuck_db :: db where
  "stuck_db = \<lparr>projects_store = [], content_store = [],
                counters_store = [(js ''contentId'', 9007199254740992), (js ''projectId'', 1)]\<rparr>"

definition demo_file :: fileData where
  "demo_file = \<lparr>file_name = js ''a.txt'', file_type = js ''text/plain'', file_size = 2,
                 file_content = js ''hi'', extension = js ''txt'', isImage = False\<rparr>"

definition demo_ideas :: project where
  "demo_ideas = \<lparr>id' = 1, createdAt = js ''2024-05-01T10:00:00.000Z'', name = js ''Ideas''\<rparr>"

definition demo_garden :: project where
  "demo_garden = \<lparr>id' = 2, createdAt = js ''2024-05-20T08:30:00.000Z'', name = js ''Garden''\<rparr>"

definition demo_hello :: content where
  "demo_hello = \<lparr>id' = 1, createdAt = js ''2024-05-01T10:05:00.000Z'', projectId = 1,
                  text' = Some (js ''hello''), file' = None, updatedAt = None\<rparr>"

definition demo_roses :: content where
  "demo_roses = \<lparr>id' = 2, createdAt = js ''2024-05-20T09:00:00.000Z'', projectId = 2,
                  text' = Some (js ''roses''), file' = None, updatedAt = None\<rparr>"

definition demo_note :: content where
  "demo_note = \<lparr>id' = 3, createdAt = js ''2024-05-02T11:00:00.000Z'', projectId = 1,
                 text' = Some [],
                 file' = Some demo_file,
                 updatedAt = None\<rparr>"

definition demo_db :: db where
  "demo_db = \<lparr>projects_store = [demo_ideas, demo_garden],
               content_store = [demo_hello, demo_roses, demo_note],
               counters_store = [(js ''contentId'', 4), (js ''projectId'', 3)]\<rparr>"

definition demo_pm :: pm_state where
  "demo_pm = \<lparr>projects = [demo_ideas, demo_garden], currentProject = Some demo_garden,
               currentFileContent = None\<rparr>"


text \<open>
  A page whose open project is not in the database it is connected to, and the record
  \<^verbatim>\<open>addContent\<close> stores from that page in a fresh database.
\<close>

definition stale_pm :: pm_state where
  "stale_pm = \<lparr>projects = [], currentProject = Some demo_garden, currentFileContent = None\<rparr>"

definition orphan :: content where
  "orphan = \<lparr>id' = 1, createdAt = js ''2024-05-20T09:00:00.000Z'', projectId = 2,
              text' = Some (js ''roses''), file' = None, updatedAt = None\<rparr>"



definition demo_pm_file :: pm_state where
  "demo_pm_file = \<lparr>projects = [demo_ideas, demo_garden], currentProject = Some demo_garden,
                    currentFileContent = Some demo_file\<rparr>"

text \<open>A first session on a fresh database, and the states it ends in.\<close>

definition demo_session :: "event list" where
  "demo_session =
     [CreateProject no_faults (js ''2024-05-01T10:00:00.000Z'') (Some (js '' Ideas'')),
      OpenProject no_faults 1,
      SetCurrentFile (Some demo_file),
      AddContent no_faults (js ''2024-05-02T11:00:00.000Z'') (Some (js ''   ''))]"

definition session_content :: content where
  "session_content = \<lparr>id' = 1, createdAt = js ''2024-05-02T11:00:00.000Z'', projectId = 1,
                       text' = Some [], file' = Some demo_file, updatedAt = None\<rparr>"

definition session_db1 :: db where
  "session_db1 = \<lparr>projects_store = [demo_ideas], content_store = [],
                   counters_store = [(js ''contentId'', 1), (js ''projectId'', 2)]\<rparr>"

definition session_db :: db where
  "session_db = \<lparr>projects_store = [demo_ideas], content_store = [session_content],
                  counters_store = [(js ''contentId'', 2), (js ''projectId'', 2)]\<rparr>"

definition session_pm :: pm_state where
  "session_pm = \<lparr>projects = [demo_ideas], currentProject = Some demo_ideas,
                  currentFileContent = None\<rparr>"

section \<open>Object stores\<close>

lemma store_get_put_same: "store_get key (key r) (store_put key r xs) = Some r"
  by (induction xs) (auto simp: store_get_def)

lemma store_get_put_other:
  "k \<noteq> key r \<Longrightarrow> store_get key k (store_put key r xs) = store_get key k xs"
  by (induction xs) (auto simp: store_get_def)

lemma store_get_SomeD: "store_get key k xs = Some r \<Longrightarrow> key r = k \<and> r \<in> set xs"
  by (induction xs) (auto simp: store_get_def split: if_splits)

section \<open>Numbers\<close>

lemma ulp_small: "m < 2 ^ 53 \<Longrightarrow> ulp m = 1"
  by (simp add: ulp.simps)

lemma ulp_next: "2 ^ 53 \<le> m \<Longrightarrow> m < 2 ^ 54 \<Longrightarrow> ulp m = 2"
proof -
  assume a: "2 ^ 53 \<le> m" and b: "m < 2 ^ 54"
  have "m div 2 < 2 ^ 53" using b by simp
  then have "ulp (m div 2) = 1" by (rule ulp_small)
  moreover have "\<not> m < 2 ^ 53" using a by simp
  ultimately show ?thesis by (subst ulp.simps) simp
qed

lemma round_double_safe: "\<bar>x\<bar> \<le> 2 ^ 53 \<Longrightarrow> round_double x = x"
proof -
  assume a: "\<bar>x\<bar> \<le> 2 ^ 53"
  show ?thesis
  proof (cases "\<bar>x\<bar> < 2 ^ 53")
    case True
    then have "nat \<bar>x\<bar> < 2 ^ 53" by simp
    then have "ulp (nat \<bar>x\<bar>) = 1" by (rule ulp_small)
    then show ?thesis by (simp add: round_double_def Let_def mult_sgn_abs)
  next
    case False
    with a have e: "\<bar>x\<bar> = 2 ^ 53" by simp
    then have n: "nat \<bar>x\<bar> = 2 ^ 53" by simp
    have "ulp (2 ^ 53) = 2" by (rule ulp_next) simp_all
    then have "sgn x * int (if 2 * (nat \<bar>x\<bar> mod ulp (nat \<bar>x\<bar>)) < ulp (nat \<bar>x\<bar>)
                   \<or> (2 * (nat \<bar>x\<bar> mod ulp (nat \<bar>x\<bar>)) = ulp (nat \<bar>x\<bar>)
                       \<and> even (nat \<bar>x\<bar> div ulp (nat \<bar>x\<bar>)))
                then nat \<bar>x\<bar> div ulp (nat \<bar>x\<bar>) * ulp (nat \<bar>x\<bar>)
                else (nat \<bar>x\<bar> div ulp (nat \<bar>x\<bar>) + 1) * ulp (nat \<bar>x\<bar>)) = sgn x * \<bar>x\<bar>"
      unfolding n by (simp add: e)
    then show ?thesis by (simp add: round_double_def Let_def mult_sgn_abs)
  qed
qed

lemma js_add_safe: "\<bar>a + b\<bar> \<le> 2 ^ 53 \<Longrightarrow> js_add a b = a + b"
  by (simp add: js_add_def round_double_safe)

lemma js_add_small: "js_add 1 1 = 2" "js_add 2 1 = 3" "js_add 3 1 = 4" "js_add 4 1 = 5"
  by (simp_all add: js_add_safe)

lemma js_add_stuck: "js_add 9007199254740992 1 = 9007199254740992"
proof -
  have "ulp 9007199254740993 = 2" by (rule ulp_next) simp_all
  then show ?thesis by (simp add: js_add_def round_double_def Let_def)
qed

section \<open>The counter\<close>

lemma getNextId_result: "fst (getNextId None n d) = Resolved (stored_value n d)"
  by (simp add: getNextId_def stored_value_def fails_def Let_def split: option.splits)

lemma getNextId_key:
  "fst (case store_get fst n xs of Some c \<Rightarrow> c | None \<Rightarrow> (n, 1)) = n"
  by (auto split: option.splits dest: store_get_SomeD)

lemma getNextId_None_eq:
  "getNextId None n d
     = (Resolved (stored_value n d),
        d\<lparr>counters_store :=
             store_put fst (n, js_add (stored_value n d) 1) (counters_store d)\<rparr>)"
proof (cases "store_get fst n (counters_store d)")
  case None
  then show ?thesis by (simp add: getNextId_def fails_def Let_def stored_value_def)
next
  case (Some c)
  then have "fst c = n" by (auto dest: store_get_SomeD)
  with Some show ?thesis
    by (simp add: getNextId_def fails_def Let_def stored_value_def)
qed

lemma getNextId_stored:
  "stored_value n (snd (getNextId None n d)) = js_add (stored_value n d) 1"
  using store_get_put_same[of fst "(n, js_add (stored_value n d) 1)" "counters_store d"]
  by (simp add: getNextId_None_eq) (simp add: stored_value_def)

lemma getNextIds_range:
  "- (2 ^ 53) \<le> stored_value n d \<Longrightarrow> stored_value n d + int k \<le> 2 ^ 53 \<Longrightarrow>
     fst (getNextIds k n d) = map (\<lambda>i. stored_value n d + int i) [0..<k]"
proof (induction k arbitrary: d)
  case 0
  then show ?case by simp
next
  case (Suc k)
  obtain d' where d': "getNextId None n d = (Resolved (stored_value n d), d')"
    using getNextId_result[of n d] by (cases "getNextId None n d") auto
  have "\<bar>stored_value n d + 1\<bar> \<le> 2 ^ 53"
    using Suc.prems by (simp add: abs_le_iff)
  then have "js_add (stored_value n d) 1 = stored_value n d + 1"
    by (rule js_add_safe)
  then have sv: "stored_value n d' = stored_value n d + 1"
    using getNextId_stored[of n d] d' by simp
  have ih: "fst (getNextIds k n d') = map (\<lambda>i. stored_value n d' + int i) [0..<k]"
    using Suc.prems by (intro Suc.IH) (simp_all add: sv)
  have "fst (getNextIds (Suc k) n d) = stored_value n d # fst (getNextIds k n d')"
    using d' by (simp add: split_beta)
  also have "\<dots> = stored_value n d # map (\<lambda>i. stored_value n d + 1 + int i) [0..<k]"
    by (simp add: ih sv)
  also have "\<dots> = map (\<lambda>i. stored_value n d + int i) [0..<Suc k]"
    by (simp add: upt_rec[of 0 "Suc k"] map_Suc_upt[symmetric] del: upt_Suc)
  finally show ?case .
qed

lemma init_counters:
  "counters_store init_db = [(js ''contentId'', 1), (js ''projectId'', 1)]"
  by (simp add: init_db_def js_def)

text \<open>
  C1, as amended. Whatever the counter name and the database, \<^verbatim>\<open>getNextId\<close> resolves
  with the value of the stored row, or with 1 when no row is stored. When the stored
  value is an integer from \<open>- 2^53\<close> up to, but not including, \<open>2^53\<close>, the row read
  back afterwards holds that value plus 1; when no row is stored it holds 2. Read and
  write belong to one transaction: when the storage engine fails either of the two
  requests the call rejects and the database is as before. \<open>k\<close> successive calls that
  start at such a value and do not pass \<open>2^53\<close> resolve with the \<open>k\<close> consecutive
  integers that start at the counter's value.
\<close>

theorem getNextId_sequential:
  "(store_get fst n (counters_store d) = Some c \<longrightarrow>
      fst (getNextId None n d) = Resolved (snd c))
   \<and> (store_get fst n (counters_store d) = Some c \<and> - (2 ^ 53) \<le> snd c \<and> snd c < 2 ^ 53 \<longrightarrow>
      store_get fst n (counters_store (snd (getNextId None n d))) = Some (n, snd c + 1))
   \<and> (store_get fst n (counters_store d) = None \<longrightarrow>
      fst (getNextId None n d) = Resolved 1
      \<and> store_get fst n (counters_store (snd (getNextId None n d))) = Some (n, 2))
   \<and> (fails fault 2 \<longrightarrow> getNextId fault n d = (Rejected StorageError, d))
   \<and> (- (2 ^ 53) \<le> stored_value n d \<and> stored_value n d + int k \<le> 2 ^ 53 \<longrightarrow>
      fst (getNextIds k n d) = map (\<lambda>i. stored_value n d + int i) [0..<k])"
proof (intro conjI impI)
  assume c: "store_get fst n (counters_store d) = Some c"
  then show "fst (getNextId None n d) = Resolved (snd c)"
    by (simp add: getNextId_def fails_def Let_def)
next
  assume a: "store_get fst n (counters_store d) = Some c \<and> - (2 ^ 53) \<le> snd c \<and> snd c < 2 ^ 53"
  then have v: "stored_value n d = snd c" by (simp add: stored_value_def)
  have "\<bar>snd c + 1\<bar> \<le> 2 ^ 53" using a by (simp add: abs_le_iff)
  then have "js_add (snd c) 1 = snd c + 1" by (rule js_add_safe)
  then show "store_get fst n (counters_store (snd (getNextId None n d))) = Some (n, snd c + 1)"
    using store_get_put_same[of fst "(n, snd c + 1)" "counters_store d"]
    by (simp add: getNextId_None_eq v)
next
  assume c: "store_get fst n (counters_store d) = None"
  then show "fst (getNextId None n d) = Resolved 1"
    by (simp add: getNextId_def fails_def Let_def)
  from c have v: "stored_value n d = 1" by (simp add: stored_value_def)
  show "store_get fst n (counters_store (snd (getNextId None n d))) = Some (n, 2)"
    using store_get_put_same[of fst "(n, 2)" "counters_store d"]
    by (simp add: getNextId_None_eq v js_add_small)
next
  assume "fails fault 2"
  then show "getNextId fault n d = (Rejected StorageError, d)"
    by (simp add: getNextId_def Let_def)
next
  assume "- (2 ^ 53) \<le> stored_value n d \<and> stored_value n d + int k \<le> 2 ^ 53"
  then show "fst (getNextIds k n d) = map (\<lambda>i. stored_value n d + int i) [0..<k]"
    by (intro getNextIds_range) simp_all
qed

theorem getNextId_sequential_witness:
  "store_get fst (js ''contentId'') (counters_store init_db) = Some (js ''contentId'', 1)
   \<and> fst (getNextId None (js ''contentId'') init_db) = Resolved 1
   \<and> store_get fst (js ''contentId'')
         (counters_store (snd (getNextId None (js ''contentId'') init_db)))
       = Some (js ''contentId'', 2)
   \<and> store_get fst (js ''noteId'') (counters_store init_db) = None
   \<and> fst (getNextId None (js ''noteId'') init_db) = Resolved 1
   \<and> store_get fst (js ''noteId'')
         (counters_store (snd (getNextId None (js ''noteId'') init_db)))
       = Some (js ''noteId'', 2)
   \<and> fails (Some 1) 2
   \<and> getNextId (Some 1) (js ''contentId'') init_db = (Rejected StorageError, init_db)
   \<and> fst (getNextIds 3 (js ''contentId'') init_db) = [1, 2, 3]"
proof -
  have g: "store_get fst (js ''contentId'') (counters_store init_db) = Some (js ''contentId'', 1)"
    by (simp add: init_counters store_get_def)
  have h: "store_get fst (js ''noteId'') (counters_store init_db) = None"
    by (simp add: init_counters store_get_def) (simp add: js_def)
  have f: "fails (Some 1) 2" by (simp add: fails_def)
  have s: "stored_value (js ''contentId'') init_db = 1"
    by (simp add: stored_value_def g)
  have u: "[0..<3] = [0, 1, 2]" by (simp add: upt_rec)
  show ?thesis
    using g h f s u
      getNextId_sequential[of "js ''contentId''" init_db "(js ''contentId'', 1)" "Some 1" 3]
      getNextId_sequential[of "js ''noteId''" init_db "(js ''noteId'', 1)" None 0]
    by simp
qed

text \<open>
  C1 as stated fails at a counter of \<open>2^53\<close>: \<^verbatim>\<open>getNextId\<close> resolves with \<open>2^53\<close>
  and the row read back holds \<open>2^53\<close> again, not that value plus 1, so the next call
  resolves with the same integer.
\<close>

theorem getNextId_counterexample:
  "store_get fst (js ''contentId'') (counters_store stuck_db)
     = Some (js ''contentId'', 9007199254740992)
   \<and> fst (getNextId None (js ''contentId'') stuck_db) = Resolved 9007199254740992
   \<and> store_get fst (js ''contentId'')
        (counters_store (snd (getNextId None (js ''contentId'') stuck_db)))
      = Some (js ''contentId'', 9007199254740992)
   \<and> store_get fst (js ''contentId'')
        (counters_store (snd (getNextId None (js ''contentId'') stuck_db)))
      \<noteq> Some (js ''contentId'', 9007199254740992 + 1)
   \<and> fst (getNextIds 2 (js ''contentId'') stuck_db) = [9007199254740992, 9007199254740992]"
proof -
  have g: "store_get fst (js ''contentId'') (counters_store stuck_db)
            = Some (js ''contentId'', 9007199254740992)"
    by (simp add: stuck_db_def store_get_def)
  have v: "stored_value (js ''contentId'') stuck_db = 9007199254740992"
    by (simp add: stored_value_def g)
  have p: "store_put fst (js ''contentId'', 9007199254740992) (counters_store stuck_db)
            = counters_store stuck_db"
    by (simp add: stuck_db_def)
  have n: "getNextId None (js ''contentId'') stuck_db = (Resolved 9007199254740992, stuck_db)"
    by (simp add: getNextId_None_eq v js_add_stuck p)
  have "getNextIds 2 (js ''contentId'') stuck_db
          = ([9007199254740992, 9007199254740992], stuck_db)"
    by (simp add: numeral_2_eq_2 n)
  then show ?thesis by (simp add: n g)
qed

section \<open>Well-formed stores\<close>

lemma set_store_put: "set (store_put key r xs) \<subseteq> insert r (set xs)"
  by (induction xs) auto

lemma store_put_ok: "store_ok key xs \<Longrightarrow> store_ok key (store_put key r xs)"
proof (induction xs)
  case Nil
  then show ?case by (simp add: store_ok_def)
next
  case (Cons x xs)
  have sub: "set (store_put key r xs) \<subseteq> insert r (set xs)" by (rule set_store_put)
  from Cons show ?case using sub
    by (auto simp: store_ok_def)
qed

lemma store_delete_ok: "store_ok key xs \<Longrightarrow> store_ok key (store_delete key k xs)"
  by (induction xs) (auto simp: store_ok_def store_delete_def)

lemma store_ok_inj: "store_ok key xs \<Longrightarrow> inj_on key (set xs)"
proof -
  assume "store_ok key xs"
  then have "distinct (map key xs)"
    by (simp add: store_ok_def strict_sorted_iff)
  then show ?thesis by (simp add: distinct_map)
qed

lemma init_db_ok: "db_ok init_db"
  by (simp add: db_ok_def init_counters store_ok_def init_db_def js_def)

lemma db_reachable_ok: "db_reachable d \<Longrightarrow> db_ok d"
proof (induction rule: db_reachable.induct)
  case fresh
  show ?case by (rule init_db_ok)
next
  case (nextId d fault counterName)
  then show ?case
    by (simp add: getNextId_def db_ok_def Let_def store_put_ok)
next
  case (project_saved d fault project)
  then show ?case by (simp add: saveProject_def db_ok_def store_put_ok)
next
  case (project_deleted d fault k)
  have "store_ok id' (fold (store_delete id') ks xs)" if "store_ok id' xs" for ks and xs :: "content list"
    using that by (induction ks arbitrary: xs) (simp_all add: store_delete_ok)
  with project_deleted show ?case
    by (simp add: deleteProject_def db_ok_def Let_def store_delete_ok)
next
  case (content_saved d fault c)
  then show ?case by (simp add: saveContent_def db_ok_def store_put_ok)
next
  case (content_deleted d fault k)
  then show ?case by (simp add: deleteContent_def db_ok_def store_delete_ok)
qed

section \<open>Cascade delete\<close>

lemma fold_store_delete:
  "fold (store_delete key) ks xs = filter (\<lambda>r. key r \<notin> set ks) xs"
proof (induction ks arbitrary: xs)
  case Nil
  then show ?case by simp
next
  case (Cons k ks)
  then show ?case by (simp add: store_delete_def conj_commute)
qed

lemma cascade_filter:
  assumes "store_ok id' xs"
  shows "fold (store_delete id') (index_getAllKeys id' projectId k xs) xs
         = filter (\<lambda>c. projectId c \<noteq> k) xs"
proof -
  have inj: "inj_on id' (set xs)" using assms by (rule store_ok_inj)
  have "\<And>c. c \<in> set xs \<Longrightarrow>
          (id' c \<notin> set (index_getAllKeys id' projectId k xs)) = (projectId c \<noteq> k)"
    using inj by (auto simp: index_getAllKeys_def index_getAll_def inj_on_def)
  then show ?thesis
    by (simp add: fold_store_delete cong: filter_cong)
qed

lemma cascade_none_left:
  "index_getAll projectId k (fold (store_delete id') (index_getAllKeys id' projectId k xs) xs) = []"
  by (auto simp: fold_store_delete index_getAll_def index_getAllKeys_def filter_empty_conv)

lemma demo_ids:
  "id' demo_ideas = 1" "id' demo_garden = 2"
  "id' demo_hello = 1" "id' demo_roses = 2" "id' demo_note = 3"
  "projectId demo_hello = 1" "projectId demo_roses = 2" "projectId demo_note = 1"
  by (simp_all add: demo_ideas_def demo_garden_def demo_hello_def demo_roses_def demo_note_def)

text \<open>
  C2. In a database whose content store holds one record per key, as every database
  does that the manager's methods make of a fresh one, \<^verbatim>\<open>deleteProject\<close> resolves with \<^verbatim>\<open>true\<close>; afterwards the project is absent, the listing of its content
  is empty, the projects store is the former one without the records of that id, the
  content store is the former one without the records of that project id (all other
  records unchanged and in place), and the counters are untouched. Whatever request the
  storage engine fails, the call either rejects and leaves the database as it was or
  does exactly what the call without a failure does.
\<close>

theorem deleteProject_cascade:
  assumes "store_ok id' (content_store d)"
  shows "fst (deleteProject None k d) = Resolved True
     \<and> getProject None k (snd (deleteProject None k d)) = Resolved None
     \<and> getProjectContent None k (snd (deleteProject None k d)) = Resolved []
     \<and> projects_store (snd (deleteProject None k d))
         = filter (\<lambda>p. id' p \<noteq> k) (projects_store d)
     \<and> content_store (snd (deleteProject None k d))
         = filter (\<lambda>c. projectId c \<noteq> k) (content_store d)
     \<and> counters_store (snd (deleteProject None k d)) = counters_store d
     \<and> (deleteProject fault k d = (Rejected StorageError, d)
          \<or> deleteProject fault k d = deleteProject None k d)"
proof (intro conjI)
  show "fst (deleteProject None k d) = Resolved True"
    by (simp add: deleteProject_def fails_def Let_def)
  show "getProject None k (snd (deleteProject None k d)) = Resolved None"
    by (simp add: deleteProject_def getProject_def fails_def Let_def store_get_def
          store_delete_def find_None_iff)
  show "getProjectContent None k (snd (deleteProject None k d)) = Resolved []"
    by (simp add: deleteProject_def getProjectContent_def fails_def Let_def cascade_none_left)
  show "projects_store (snd (deleteProject None k d))
         = filter (\<lambda>p. id' p \<noteq> k) (projects_store d)"
    by (simp add: deleteProject_def fails_def Let_def store_delete_def)
  show "content_store (snd (deleteProject None k d))
         = filter (\<lambda>c. projectId c \<noteq> k) (content_store d)"
    using cascade_filter[OF assms, of k] by (simp add: deleteProject_def fails_def Let_def)
  show "counters_store (snd (deleteProject None k d)) = counters_store d"
    by (simp add: deleteProject_def fails_def Let_def)
  show "deleteProject fault k d = (Rejected StorageError, d)
          \<or> deleteProject fault k d = deleteProject None k d"
    by (simp add: deleteProject_def fails_def Let_def split: option.splits)
qed

lemma demo_content_ok: "store_ok id' (content_store demo_db)"
  by (simp add: demo_db_def store_ok_def demo_ids)

theorem deleteProject_cascade_witness:
  "store_ok id' (content_store demo_db)
   \<and> fst (deleteProject None 1 demo_db) = Resolved True
   \<and> getProject None 1 (snd (deleteProject None 1 demo_db)) = Resolved None
   \<and> getProjectContent None 1 (snd (deleteProject None 1 demo_db)) = Resolved []
   \<and> projects_store (snd (deleteProject None 1 demo_db)) = [demo_garden]
   \<and> content_store (snd (deleteProject None 1 demo_db)) = [demo_roses]
   \<and> deleteProject (Some 3) 1 demo_db = (Rejected StorageError, demo_db)"
proof -
  have f: "deleteProject (Some 3) 1 demo_db \<noteq> deleteProject None 1 demo_db"
    by (simp add: deleteProject_def fails_def Let_def index_getAllKeys_def
          index_getAll_def demo_db_def demo_ids)
  have p: "filter (\<lambda>p. id' p \<noteq> 1) (projects_store demo_db) = [demo_garden]"
    by (simp add: demo_db_def demo_ids)
  have c: "filter (\<lambda>c. projectId c \<noteq> 1) (content_store demo_db) = [demo_roses]"
    by (simp add: demo_db_def demo_ids)
  show ?thesis
    using deleteProject_cascade[OF demo_content_ok, of 1 "Some 3"] f
    by (simp add: demo_content_ok p c)
qed

section \<open>Deleting content\<close>

lemma store_delete_absent: "store_get key k xs = None \<Longrightarrow> store_delete key k xs = xs"
  by (simp add: store_get_def store_delete_def find_None_iff filter_id_conv)

lemma store_get_delete: "store_get key k (store_delete key k xs) = None"
  by (simp add: store_get_def store_delete_def find_None_iff)

text \<open>
  C8. When no content record of the given id is stored, \<^verbatim>\<open>deleteContent\<close> resolves
  with \<^verbatim>\<open>true\<close> and the database is the same as before; whatever the storage engine
  does, the database stays the same and the call does not reject with
  \<open>NotFoundError\<close>. A second delete of an id, right after the first, resolves and
  changes nothing.
\<close>

theorem deleteContent_absent:
  "(store_get id' k (content_store d) = None \<longrightarrow>
      deleteContent None k d = (Resolved True, d)
      \<and> snd (deleteContent fault k d) = d
      \<and> fst (deleteContent fault k d) \<noteq> Rejected NotFoundError)
   \<and> deleteContent None k (snd (deleteContent None k d))
       = (Resolved True, snd (deleteContent None k d))"
proof (intro conjI impI)
  assume a: "store_get id' k (content_store d) = None"
  then show "deleteContent None k d = (Resolved True, d)"
    by (simp add: deleteContent_def fails_def store_delete_absent)
  from a show "snd (deleteContent fault k d) = d"
    by (simp add: deleteContent_def store_delete_absent)
  show "fst (deleteContent fault k d) \<noteq> Rejected NotFoundError"
    by (simp add: deleteContent_def)
next
  have "store_get id' k (content_store (snd (deleteContent None k d))) = None"
    by (simp add: deleteContent_def fails_def store_get_delete)
  then show "deleteContent None k (snd (deleteContent None k d))
       = (Resolved True, snd (deleteContent None k d))"
    by (simp add: deleteContent_def fails_def store_delete_absent)
qed

theorem deleteContent_absent_witness:
  "store_get id' 7 (content_store demo_db) = None
   \<and> deleteContent None 7 demo_db = (Resolved True, demo_db)
   \<and> snd (deleteContent (Some 0) 7 demo_db) = demo_db
   \<and> fst (deleteContent (Some 0) 7 demo_db) \<noteq> Rejected NotFoundError
   \<and> content_store (snd (deleteContent None 2 demo_db)) = [demo_hello, demo_note]
   \<and> deleteContent None 2 (snd (deleteContent None 2 demo_db))
       = (Resolved True, snd (deleteContent None 2 demo_db))"
proof -
  have a: "store_get id' 7 (content_store demo_db) = None"
    by (simp add: store_get_def demo_db_def demo_ids)
  have b: "content_store (snd (deleteContent None 2 demo_db)) = [demo_hello, demo_note]"
    by (simp add: deleteContent_def fails_def store_delete_def demo_db_def demo_ids)
  show ?thesis
    using a b deleteContent_absent[of 7 demo_db "Some 0"] deleteContent_absent[of 2 demo_db None]
    by simp
qed

section \<open>Renaming a project\<close>

lemma store_put_frame:
  "store_delete key (key r) (store_put key r xs) = store_delete key (key r) xs"
  by (induction xs) (auto simp: store_delete_def)

lemma trim_Nil: "trim [] = []"
  by (simp add: trim_def)

text \<open>
  C7. For a stored project \<open>P\<close> of id \<open>k\<close> and a name entered at the prompt that is
  not empty after trimming, with no storage failure: after \<^verbatim>\<open>editProject\<close> the fetch
  of \<open>k\<close> yields \<open>P\<close> with the trimmed name in place of the old one, so \<^verbatim>\<open>id\<close> and
  \<^verbatim>\<open>createdAt\<close> are those of \<open>P\<close>; the fetch of every other id yields what it
  yielded before, the records of the other ids in the projects store are the same, and
  the content and counters stores are untouched. Nothing is shown to the user.
\<close>

theorem editProject_rename:
  assumes "store_get id' k (projects_store d) = Some P"
    and "trim newName \<noteq> []"
  shows "getProject None k (store (editProject no_faults (Some newName) k p d))
           = Resolved (Some (P\<lparr>name := trim newName\<rparr>))
     \<and> (\<forall>j. j \<noteq> k \<longrightarrow>
           getProject None j (store (editProject no_faults (Some newName) k p d))
             = getProject None j d)
     \<and> store_delete id' k (projects_store (store (editProject no_faults (Some newName) k p d)))
         = store_delete id' k (projects_store d)
     \<and> content_store (store (editProject no_faults (Some newName) k p d)) = content_store d
     \<and> counters_store (store (editProject no_faults (Some newName) k p d)) = counters_store d
     \<and> shown (editProject no_faults (Some newName) k p d) = Silent"
proof -
  have key: "id' P = k" using assms(1) by (auto dest: store_get_SomeD)
  have ne: "newName \<noteq> []" using assms(2) by (auto simp: trim_Nil)
  define P' where "P' = P\<lparr>name := trim newName\<rparr>"
  have key': "id' P' = k" by (simp add: P'_def key)
  have st: "store (editProject no_faults (Some newName) k p d)
      = d\<lparr>projects_store := store_put id' P' (projects_store d)\<rparr>"
    using assms ne
    by (simp add: editProject_def getProject_def saveProject_def no_faults_def fails_def
          Let_def P'_def returned_def)
  have sh: "shown (editProject no_faults (Some newName) k p d) = Silent"
    using assms ne
    by (simp add: editProject_def getProject_def saveProject_def no_faults_def fails_def
          Let_def returned_def)
  have g: "store_get id' k (store_put id' P' (projects_store d)) = Some P'"
    using store_get_put_same[of id' P' "projects_store d"] by (simp add: key')
  have o: "j \<noteq> k \<Longrightarrow> store_get id' j (store_put id' P' (projects_store d))
            = store_get id' j (projects_store d)" for j
    using store_get_put_other[of j id' P' "projects_store d"] by (simp add: key')
  have fr: "store_delete id' k (store_put id' P' (projects_store d))
             = store_delete id' k (projects_store d)"
    using store_put_frame[of id' P' "projects_store d"] by (simp add: key')
  show ?thesis
    unfolding st
    by (simp add: getProject_def fails_def g o fr sh) (simp add: P'_def)
qed

lemma trim_example: "trim (js ''  Orchard '') = js ''Orchard''"
  by (simp add: trim_def js_def isWhiteSpace_def)

theorem editProject_rename_witness:
  "store_get id' 2 (projects_store demo_db) = Some demo_garden
   \<and> trim (js ''  Orchard '') \<noteq> []
   \<and> getProject None 2 (store (editProject no_faults (Some (js ''  Orchard '')) 2 demo_pm demo_db))
       = Resolved (Some (demo_garden\<lparr>name := js ''Orchard''\<rparr>))
   \<and> getProject None 1 (store (editProject no_faults (Some (js ''  Orchard '')) 2 demo_pm demo_db))
       = Resolved (Some demo_ideas)"
proof -
  have a: "store_get id' 2 (projects_store demo_db) = Some demo_garden"
    by (simp add: store_get_def demo_db_def demo_ids)
  have b: "trim (js ''  Orchard '') \<noteq> []"
    by (simp add: trim_example) (simp add: js_def)
  have c: "getProject None 1 demo_db = Resolved (Some demo_ideas)"
    by (simp add: getProject_def fails_def store_get_def demo_db_def demo_ids)
  show ?thesis
    using editProject_rename[OF a b, of demo_pm] a b c
    by (simp add: trim_example)
qed

section \<open>Recent activity\<close>














section \<open>Runs of the application are runs of the database manager\<close>

lemma db_reachable_steps:
  "getNextId fault n d = (r1, d1) \<Longrightarrow> db_reachable d \<Longrightarrow> db_reachable d1"
  "saveProject fault P d = (r2, d1) \<Longrightarrow> db_reachable d \<Longrightarrow> db_reachable d1"
  "deleteProject fault k d = (r3, d1) \<Longrightarrow> db_reachable d \<Longrightarrow> db_reachable d1"
  "saveContent fault c d = (r4, d1) \<Longrightarrow> db_reachable d \<Longrightarrow> db_reachable d1"
  "deleteContent fault k d = (r5, d1) \<Longrightarrow> db_reachable d \<Longrightarrow> db_reachable d1"
  using db_reachable.nextId[of d fault n] db_reachable.project_saved[of d fault P]
    db_reachable.project_deleted[of d fault k] db_reachable.content_saved[of d fault c]
    db_reachable.content_deleted[of d fault k]
  by simp_all

lemma fire_db_reachable:
  assumes "db_reachable d"
  shows "db_reachable (store (fire e p d))"
proof (cases e)
  case (Init F)
  then show ?thesis using assms
    by (simp add: loadProjects_def returned_def toast_def split: settled.splits)
next
  case (CreateProject F now v)
  then show ?thesis using assms
    by (auto simp: createProject_def returned_def toast_def Let_def
          split: option.splits prod.splits settled.splits
          intro: db_reachable_steps)
next
  case (AddContent F now v)
  then show ?thesis using assms
    by (auto simp: addContent_def returned_def toast_def Let_def
          split: option.splits prod.splits settled.splits
          intro: db_reachable_steps)
next
  case (OpenProject F k)
  then show ?thesis using assms
    by (simp add: openProject_def returned_def toast_def split: option.splits settled.splits)
next
  case (EditProject F v k)
  then show ?thesis using assms
    by (auto simp: editProject_def returned_def toast_def Let_def
          split: option.splits prod.splits settled.splits
          intro: db_reachable_steps)
next
  case (DeleteProject F k)
  then show ?thesis using assms
    by (auto simp: pm_deleteProject_def returned_def toast_def Let_def
          split: option.splits prod.splits settled.splits
          intro: db_reachable_steps)
next
  case (SaveContentEdit F now v k)
  then show ?thesis using assms
    by (auto simp: saveContentEdit_def returned_def toast_def alert_def Let_def
          split: option.splits prod.splits settled.splits
          intro: db_reachable_steps)
next
  case (SaveContentFileEdit F now v k)
  then show ?thesis using assms
    by (auto simp: saveContentFileEdit_def returned_def toast_def Let_def
          split: option.splits prod.splits settled.splits
          intro: db_reachable_steps)
next
  case (DeleteContent F k)
  then show ?thesis using assms
    by (auto simp: pm_deleteContent_def returned_def toast_def Let_def
          split: option.splits prod.splits settled.splits
          intro: db_reachable_steps)
next
  case ShowMainView
  then show ?thesis using assms by (simp add: returned_def)
next
  case (SetCurrentFile f)
  then show ?thesis using assms by (simp add: returned_def)
qed

lemma app_reachable_db: "app_reachable p d \<Longrightarrow> db_reachable d"
  by (induction rule: app_reachable.induct) (auto intro: db_reachable.fresh fire_db_reachable)

section \<open>Adding content\<close>

lemma trim_roses: "trim (js '' roses '') = js ''roses''"
  by (simp add: trim_def js_def isWhiteSpace_def)

lemma js_roses: "js ''roses'' \<noteq> []"
  by (simp add: js_def)

lemma file_copy:
  "(case fc of
      Some f \<Rightarrow> Some \<lparr>file_name = file_name f, file_type = file_type f, file_size = file_size f,
                        file_content = file_content f, extension = extension f,
                        isImage = (isImage f \<or> False)\<rparr>
    | None \<Rightarrow> None) = fc"
  by (cases fc) simp_all

lemma addContent_persists:
  assumes "currentProject p = Some cur"
    and "\<not> (falsy (trimmed_value v) \<and> currentFileContent p = None)"
  shows "addContent no_faults now v p d
     = returned (p\<lparr>currentFileContent := None\<rparr>)
         (d\<lparr>counters_store :=
               store_put fst (js ''contentId'', js_add (stored_value (js ''contentId'') d) 1)
                 (counters_store d),
            content_store := store_put id' (newContent now v p d (id' cur)) (content_store d)\<rparr>)"
proof -
  have g: "(falsy (trimmed_value v) \<and> currentFileContent p = None) = False"
    using assms(2) by blast
  show ?thesis
    using assms(1)
    by (simp add: addContent_def Let_def no_faults_def getNextId_None_eq saveContent_def
          fails_def file_copy newContent_def g)
qed

text \<open>
  C6. \<^verbatim>\<open>addContent\<close> looks no project up: whatever project the page has open, stored
  or not, with a text that is not empty after trimming and no storage failure the call
  resolves, shows nothing, and the record with the next content id, the open project's
  id, the trimmed text and the current file is in the content store afterwards, listed
  under that project id; the projects store is as before.
\<close>

theorem addContent_any_project:
  assumes "currentProject p = Some cur" and "trim t \<noteq> []"
  shows "promise (addContent no_faults now (Some t) p d) = Resolved ()
     \<and> shown (addContent no_faults now (Some t) p d) = Silent
     \<and> store_get id' (stored_value (js ''contentId'') d)
          (content_store (store (addContent no_faults now (Some t) p d)))
        = Some \<lparr>id' = stored_value (js ''contentId'') d, createdAt = now,
                 projectId = id' cur, text' = Some (trim t), file' = currentFileContent p,
                 updatedAt = None\<rparr>
     \<and> (\<exists>cs. getProjectContent None (id' cur) (store (addContent no_faults now (Some t) p d))
                = Resolved cs
             \<and> \<lparr>id' = stored_value (js ''contentId'') d, createdAt = now,
                  projectId = id' cur, text' = Some (trim t), file' = currentFileContent p,
                  updatedAt = None\<rparr> \<in> set cs)
     \<and> projects_store (store (addContent no_faults now (Some t) p d)) = projects_store d"
proof -
  define c where "c = newContent now (Some t) p d (id' cur)"
  have c_eq: "c = \<lparr>id' = stored_value (js ''contentId'') d, createdAt = now,
                 projectId = id' cur, text' = Some (trim t), file' = currentFileContent p,
                 updatedAt = None\<rparr>"
    by (simp add: c_def newContent_def trimmed_value_def)
  have g: "\<not> (falsy (trimmed_value (Some t)) \<and> currentFileContent p = None)"
    using assms(2) by (simp add: falsy_def trimmed_value_def)
  have run: "addContent no_faults now (Some t) p d
     = returned (p\<lparr>currentFileContent := None\<rparr>)
         (d\<lparr>counters_store :=
               store_put fst (js ''contentId'', js_add (stored_value (js ''contentId'') d) 1)
                 (counters_store d),
            content_store := store_put id' c (content_store d)\<rparr>)"
    unfolding c_def by (rule addContent_persists[OF assms(1) g])
  have k: "id' c = stored_value (js ''contentId'') d" by (simp add: c_eq)
  have get: "store_get id' (stored_value (js ''contentId'') d) (store_put id' c (content_store d))
              = Some c"
    using store_get_put_same[of id' c "content_store d"] by (simp add: k)
  then have mem: "c \<in> set (store_put id' c (content_store d))"
    by (auto dest: store_get_SomeD)
  have pj: "projectId c = id' cur" by (simp add: c_eq)
  show ?thesis
    unfolding run c_eq[symmetric]
    using get mem pj
    by (simp add: returned_def getProjectContent_def fails_def index_getAll_def)
qed

theorem addContent_any_project_witness:
  "currentProject stale_pm = Some demo_garden
   \<and> trim (js '' roses '') \<noteq> []
   \<and> getProject None (id' demo_garden) init_db = Resolved None
   \<and> shown (addContent no_faults (js ''2024-05-20T09:00:00.000Z'') (Some (js '' roses ''))
              stale_pm init_db) = Silent
   \<and> store_get id' 1
        (content_store (store (addContent no_faults (js ''2024-05-20T09:00:00.000Z'')
                                 (Some (js '' roses '')) stale_pm init_db)))
      = Some orphan
   \<and> projects_store (store (addContent no_faults (js ''2024-05-20T09:00:00.000Z'')
                               (Some (js '' roses '')) stale_pm init_db)) = []"
proof -
  have a: "currentProject stale_pm = Some demo_garden" by (simp add: stale_pm_def)
  have b: "trim (js '' roses '') \<noteq> []" by (simp add: trim_roses js_roses)
  have c: "getProject None (id' demo_garden) init_db = Resolved None"
    by (simp add: getProject_def fails_def store_get_def init_db_def)
  have d: "stored_value (js ''contentId'') init_db = 1"
    by (simp add: stored_value_def init_counters store_get_def)
  have e: "currentFileContent stale_pm = None" by (simp add: stale_pm_def)
  have f: "projects_store init_db = []" by (simp add: init_db_def)
  show ?thesis
    using addContent_any_project[OF a b, of "js ''2024-05-20T09:00:00.000Z''" init_db] a b c
    by (simp add: d e f trim_roses orphan_def demo_ids)
qed

section \<open>Validation\<close>

lemma createProject_blank:
  "falsy (trimmed_value v) \<Longrightarrow> createProject F now v p d = returned p d"
  by (cases v) (simp_all add: createProject_def falsy_def trimmed_value_def)

lemma addContent_blank:
  "falsy (trimmed_value v) \<and> currentFileContent p = None \<Longrightarrow>
     addContent F now v p d = returned p d"
  by (simp add: addContent_def Let_def split: option.splits)

lemma trim_blank: "trim (js ''   '') = []"
  by (simp add: trim_def js_def isWhiteSpace_def)

lemma demo_next_content: "stored_value (js ''contentId'') demo_db = 4"
  by (simp add: stored_value_def store_get_def demo_db_def)

text \<open>
  C4, as amended. \<^verbatim>\<open>createProject\<close> with a name that is missing or empty after
  trimming is a silent no-op under every behaviour of the storage engine: the promise
  resolves, nothing is shown, the page and the database are unchanged. So is
  \<^verbatim>\<open>addContent\<close> when the trimmed text is missing or empty and no file is attached.
  With a project open, a non-empty text or a file, and no storage failure,
  \<^verbatim>\<open>addContent\<close> resolves, shows nothing and stores the record.
\<close>

theorem validation_silent:
  "(falsy (trimmed_value projectInput) \<longrightarrow>
      createProject F now projectInput p d = returned p d)
   \<and> (falsy (trimmed_value contentInput) \<and> currentFileContent p = None \<longrightarrow>
      addContent F now contentInput p d = returned p d)
   \<and> (currentProject q = Some cur
        \<and> \<not> (falsy (trimmed_value v) \<and> currentFileContent q = None) \<longrightarrow>
      promise (addContent no_faults now v q d) = Resolved ()
      \<and> shown (addContent no_faults now v q d) = Silent
      \<and> store_get id' (stored_value (js ''contentId'') d)
           (content_store (store (addContent no_faults now v q d)))
         = Some \<lparr>id' = stored_value (js ''contentId'') d, createdAt = now,
                  projectId = id' cur, text' = trimmed_value v,
                  file' = currentFileContent q, updatedAt = None\<rparr>)"
proof (intro conjI impI)
  assume "falsy (trimmed_value projectInput)"
  then show "createProject F now projectInput p d = returned p d"
    by (rule createProject_blank)
next
  assume "falsy (trimmed_value contentInput) \<and> currentFileContent p = None"
  then show "addContent F now contentInput p d = returned p d"
    by (rule addContent_blank)
next
  assume a: "currentProject q = Some cur
        \<and> \<not> (falsy (trimmed_value v) \<and> currentFileContent q = None)"
  define c where "c = newContent now v q d (id' cur)"
  have run: "addContent no_faults now v q d
     = returned (q\<lparr>currentFileContent := None\<rparr>)
         (d\<lparr>counters_store :=
               store_put fst (js ''contentId'', js_add (stored_value (js ''contentId'') d) 1)
                 (counters_store d),
            content_store := store_put id' c (content_store d)\<rparr>)"
    unfolding c_def using a by (intro addContent_persists) simp_all
  have k: "id' c = stored_value (js ''contentId'') d" by (simp add: c_def newContent_def)
  have get: "store_get id' (stored_value (js ''contentId'') d) (store_put id' c (content_store d))
              = Some c"
    using store_get_put_same[of id' c "content_store d"] by (simp add: k)
  show "promise (addContent no_faults now v q d) = Resolved ()"
    by (simp add: run returned_def)
  show "shown (addContent no_faults now v q d) = Silent"
    by (simp add: run returned_def)
  show "store_get id' (stored_value (js ''contentId'') d)
           (content_store (store (addContent no_faults now v q d)))
         = Some \<lparr>id' = stored_value (js ''contentId'') d, createdAt = now,
                  projectId = id' cur, text' = trimmed_value v,
                  file' = currentFileContent q, updatedAt = None\<rparr>"
    using get by (simp add: run returned_def) (simp add: c_def newContent_def)
qed

theorem validation_silent_witness:
  "falsy (trimmed_value (Some (js ''   '')))
   \<and> currentFileContent demo_pm = None
   \<and> createProject no_faults (js ''2024-05-21T12:00:00.000Z'') (Some (js ''   ''))
        demo_pm demo_db = returned demo_pm demo_db
   \<and> addContent no_faults (js ''2024-05-21T12:00:00.000Z'') (Some (js ''   ''))
        demo_pm demo_db = returned demo_pm demo_db
   \<and> currentProject demo_pm_file = Some demo_garden
   \<and> currentFileContent demo_pm_file = Some demo_file
   \<and> shown (addContent no_faults (js ''2024-05-21T12:00:00.000Z'') (Some (js ''   ''))
              demo_pm_file demo_db) = Silent
   \<and> store_get id' 4
        (content_store (store (addContent no_faults (js ''2024-05-21T12:00:00.000Z'')
                                 (Some (js ''   '')) demo_pm_file demo_db)))
      = Some \<lparr>id' = 4, createdAt = js ''2024-05-21T12:00:00.000Z'', projectId = 2,
               text' = Some [], file' = Some demo_file, updatedAt = None\<rparr>"
proof -
  have f: "falsy (trimmed_value (Some (js ''   '')))"
    by (simp add: falsy_def trimmed_value_def trim_blank)
  have t: "trimmed_value (Some (js ''   '')) = Some []"
    by (simp add: trimmed_value_def trim_blank)
  have n: "currentFileContent demo_pm = None" by (simp add: demo_pm_def)
  have c: "currentProject demo_pm_file = Some demo_garden"
    and g: "currentFileContent demo_pm_file = Some demo_file"
    by (simp_all add: demo_pm_file_def)
  show ?thesis
    using validation_silent[of "Some (js ''   '')" no_faults "js ''2024-05-21T12:00:00.000Z''"
        demo_pm demo_db "Some (js ''   '')" demo_pm_file demo_garden "Some (js ''   '')"]
      f n c g
    by (simp add: t demo_next_content demo_ids)
qed

text \<open>
  C4 as stated fails: with the name of three blanks \<^verbatim>\<open>createProject\<close> resolves rather
  than rejects with \<open>ValidationError\<close>, shows nothing and leaves the database as it
  was, and so does \<^verbatim>\<open>addContent\<close> with a blank text and no file.
\<close>

theorem validation_counterexample:
  "promise (createProject no_faults (js ''2024-05-21T12:00:00.000Z'') (Some (js ''   ''))
              demo_pm demo_db) = Resolved ()
   \<and> promise (createProject no_faults (js ''2024-05-21T12:00:00.000Z'') (Some (js ''   ''))
              demo_pm demo_db) \<noteq> Rejected ValidationError
   \<and> shown (createProject no_faults (js ''2024-05-21T12:00:00.000Z'') (Some (js ''   ''))
              demo_pm demo_db) = Silent
   \<and> store (createProject no_faults (js ''2024-05-21T12:00:00.000Z'') (Some (js ''   ''))
              demo_pm demo_db) = demo_db
   \<and> promise (addContent no_faults (js ''2024-05-21T12:00:00.000Z'') (Some (js ''   ''))
              demo_pm demo_db) = Resolved ()
   \<and> promise (addContent no_faults (js ''2024-05-21T12:00:00.000Z'') (Some (js ''   ''))
              demo_pm demo_db) \<noteq> Rejected ValidationError
   \<and> shown (addContent no_faults (js ''2024-05-21T12:00:00.000Z'') (Some (js ''   ''))
              demo_pm demo_db) = Silent
   \<and> store (addContent no_faults (js ''2024-05-21T12:00:00.000Z'') (Some (js ''   ''))
              demo_pm demo_db) = demo_db"
proof -
  have f: "falsy (trimmed_value (Some (js ''   '')))"
    by (simp add: falsy_def trimmed_value_def trim_blank)
  have n: "currentFileContent demo_pm = None" by (simp add: demo_pm_def)
  show ?thesis
    by (simp add: createProject_blank[OF f] addContent_blank[OF conjI[OF f n]] returned_def)
qed

section \<open>The content invariant\<close>

lemma list_all_store_put:
  "list_all P xs \<Longrightarrow> P r \<Longrightarrow> list_all P (store_put key r xs)"
  using set_store_put[of key r xs] by (auto simp: list_all_iff)

lemma list_all_store_delete: "list_all P xs \<Longrightarrow> list_all P (store_delete key k xs)"
  by (simp add: store_delete_def list_all_iff)

lemma list_all_fold_delete: "list_all P xs \<Longrightarrow> list_all P (fold (store_delete key) ks xs)"
  by (simp add: fold_store_delete list_all_iff)

lemma content_inv_steps:
  "getNextId fault n d = (r1, d1) \<Longrightarrow> content_inv d \<Longrightarrow> content_inv d1"
  "saveProject fault P d = (r2, d1) \<Longrightarrow> content_inv d \<Longrightarrow> content_inv d1"
  "deleteProject fault k d = (r3, d1) \<Longrightarrow> content_inv d \<Longrightarrow> content_inv d1"
  "deleteContent fault k d = (r5, d1) \<Longrightarrow> content_inv d \<Longrightarrow> content_inv d1"
  by (auto simp: getNextId_def saveProject_def deleteProject_def deleteContent_def Let_def
        content_inv_def list_all_fold_delete list_all_store_delete split: if_splits)

lemma content_inv_saveContent:
  "saveContent fault c d = (r, d1) \<Longrightarrow> content_ok c \<Longrightarrow> content_inv d \<Longrightarrow> content_inv d1"
  by (auto simp: saveContent_def content_inv_def list_all_store_put split: if_splits)

lemma addContent_inv:
  assumes "content_inv d"
  shows "content_inv (store (addContent F now v p d))"
proof (cases "currentProject p")
  case None
  then show ?thesis using assms by (simp add: addContent_def returned_def)
next
  case (Some cur)
  show ?thesis
  proof (cases "falsy (trimmed_value v) \<and> currentFileContent p = None")
    case True
    then show ?thesis using assms by (simp add: addContent_blank returned_def)
  next
    case False
    define c where "c = newContent now v p d (id' cur)"
    obtain r1 d1 where n: "getNextId (F 0) (js ''contentId'') d = (r1, d1)"
      by (cases "getNextId (F 0) (js ''contentId'') d")
    have i1: "content_inv d1" using n assms by (rule content_inv_steps(1))
    have ok: "content_ok (c\<lparr>id' := k\<rparr>)" for k
      using False by (auto simp: content_ok_def c_def newContent_def)
    have g: "(falsy (trimmed_value v) \<and> currentFileContent p = None) = False"
      using False by blast
    show ?thesis
    proof (cases r1)
      case (Rejected e)
      then show ?thesis using Some n i1
        by (simp add: addContent_def Let_def toast_def g)
    next
      case (Resolved contentId)
      obtain r2 d2 where s: "saveContent (F 1) (c\<lparr>id' := contentId\<rparr>) d1 = (r2, d2)"
        by (cases "saveContent (F 1) (c\<lparr>id' := contentId\<rparr>) d1")
      have i2: "content_inv d2" using s ok i1 by (rule content_inv_saveContent)
      have e: "c\<lparr>id' := contentId\<rparr>
          = \<lparr>id' = contentId, createdAt = now, projectId = id' cur, text' = trimmed_value v,
             file' = currentFileContent p, updatedAt = None\<rparr>"
        by (simp add: c_def newContent_def)
      show ?thesis using Some n Resolved s i2
        by (cases r2) (simp_all add: addContent_def Let_def g file_copy e[symmetric]
              toast_def returned_def)
    qed
  qed
qed

lemma saveContentEdit_inv:
  assumes "content_inv d"
  shows "content_inv (store (saveContentEdit F now v k p d))"
proof -
  have w: "content_inv (store (case saveContent f (c\<lparr>text' := Some t, updatedAt := Some now\<rparr>) d of
              (Rejected e, d1) \<Rightarrow> toast m p d1
            | (Resolved saved, d1) \<Rightarrow> returned p d1))"
    if "\<not> (t = [] \<and> file' c = None)" for f c t m
  proof -
    have ok: "content_ok (c\<lparr>text' := Some t, updatedAt := Some now\<rparr>)"
      using that by (auto simp: content_ok_def falsy_def)
    obtain r d1 where s: "saveContent f (c\<lparr>text' := Some t, updatedAt := Some now\<rparr>) d = (r, d1)"
      by (cases "saveContent f (c\<lparr>text' := Some t, updatedAt := Some now\<rparr>) d")
    have "content_inv d1" using s ok assms by (rule content_inv_saveContent)
    then show ?thesis by (cases r) (simp_all add: s toast_def returned_def)
  qed
  show ?thesis
    using assms w
    by (simp add: saveContentEdit_def Let_def returned_def toast_def alert_def
          split: option.splits settled.splits)
qed

lemma saveContentFileEdit_inv:
  assumes "content_inv d"
  shows "content_inv (store (saveContentFileEdit F now v k p d))"
proof -
  have w: "content_inv (store (case saveContent f (c\<lparr>file' := Some g, updatedAt := Some now\<rparr>) d of
              (Rejected e, d1) \<Rightarrow> toast m p d1
            | (Resolved saved, d1) \<Rightarrow> toast m' p d1))" for f c g m m'
  proof -
    have ok: "content_ok (c\<lparr>file' := Some g, updatedAt := Some now\<rparr>)"
      by (simp add: content_ok_def)
    obtain r d1 where s: "saveContent f (c\<lparr>file' := Some g, updatedAt := Some now\<rparr>) d = (r, d1)"
      by (cases "saveContent f (c\<lparr>file' := Some g, updatedAt := Some now\<rparr>) d")
    have "content_inv d1" using s ok assms by (rule content_inv_saveContent)
    then show ?thesis by (cases r) (simp_all add: s toast_def)
  qed
  show ?thesis
    using assms w
    by (simp add: saveContentFileEdit_def Let_def returned_def toast_def
          split: option.splits settled.splits)
qed

lemma fire_content_inv:
  assumes "content_inv d"
  shows "content_inv (store (fire e p d))"
proof (cases e)
  case (Init F)
  then show ?thesis using assms
    by (simp add: loadProjects_def returned_def toast_def split: settled.splits)
next
  case (CreateProject F now v)
  then show ?thesis using assms
    by (auto simp: createProject_def returned_def toast_def Let_def
          split: option.splits prod.splits settled.splits
          intro: content_inv_steps)
next
  case (AddContent F now v)
  then show ?thesis using assms by (simp add: addContent_inv)
next
  case (OpenProject F k)
  then show ?thesis using assms
    by (simp add: openProject_def returned_def toast_def split: option.splits settled.splits)
next
  case (EditProject F v k)
  then show ?thesis using assms
    by (auto simp: editProject_def returned_def toast_def Let_def
          split: option.splits prod.splits settled.splits
          intro: content_inv_steps)
next
  case (DeleteProject F k)
  then show ?thesis using assms
    by (auto simp: pm_deleteProject_def returned_def toast_def Let_def
          split: option.splits prod.splits settled.splits
          intro: content_inv_steps)
next
  case (SaveContentEdit F now v k)
  then show ?thesis using assms by (simp add: saveContentEdit_inv)
next
  case (SaveContentFileEdit F now v k)
  then show ?thesis using assms by (simp add: saveContentFileEdit_inv)
next
  case (DeleteContent F k)
  then show ?thesis using assms
    by (auto simp: pm_deleteContent_def returned_def toast_def Let_def
          split: option.splits prod.splits settled.splits
          intro: content_inv_steps)
next
  case ShowMainView
  then show ?thesis using assms by (simp add: returned_def)
next
  case (SetCurrentFile f)
  then show ?thesis using assms by (simp add: returned_def)
qed

lemma init_content_inv: "content_inv init_db"
  by (simp add: content_inv_def init_db_def)

lemma run_events_reachable:
  "app_reachable p d \<Longrightarrow>
     app_reachable (fst (run_events es p d)) (snd (run_events es p d))"
  by (induction es arbitrary: p d) (simp_all add: app_reachable.step)

lemma trim_ideas: "trim (js '' Ideas'') = js ''Ideas''"
  by (simp add: trim_def js_def isWhiteSpace_def)

lemma js_ideas: "js ''Ideas'' \<noteq> []"
  by (simp add: js_def)

lemma init_next_project: "getNextId None (js ''projectId'') init_db
   = (Resolved 1, init_db\<lparr>counters_store := [(js ''contentId'', 1), (js ''projectId'', 2)]\<rparr>)"
  by (simp add: getNextId_def fails_def Let_def init_counters store_get_def js_add_small)
     (simp add: js_def)

lemma session_step1:
  "createProject no_faults (js ''2024-05-01T10:00:00.000Z'') (Some (js '' Ideas''))
     start_pm init_db
   = returned \<lparr>projects = [demo_ideas], currentProject = None, currentFileContent = None\<rparr>
       session_db1"
  by (simp add: createProject_def trimmed_value_def trim_ideas js_ideas no_faults_def
        init_next_project saveProject_def fails_def Let_def demo_ideas_def start_pm_def
        session_db1_def)
     (simp add: init_db_def)

lemma session_step2:
  "openProject no_faults 1
     \<lparr>projects = [demo_ideas], currentProject = None, currentFileContent = None\<rparr> session_db1
   = returned session_pm session_db1"
  by (simp add: openProject_def getProject_def no_faults_def fails_def store_get_def demo_ids
        session_db1_def session_pm_def)

lemma session_step3:
  "setCurrentFile (Some demo_file) session_pm
   = \<lparr>projects = [demo_ideas], currentProject = Some demo_ideas,
      currentFileContent = Some demo_file\<rparr>"
  by (simp add: setCurrentFile_def session_pm_def)

lemma session_step4:
  "addContent no_faults (js ''2024-05-02T11:00:00.000Z'') (Some (js ''   ''))
     \<lparr>projects = [demo_ideas], currentProject = Some demo_ideas,
      currentFileContent = Some demo_file\<rparr> session_db1
   = returned session_pm session_db"
proof -
  have n: "stored_value (js ''contentId'') session_db1 = 1"
    by (simp add: stored_value_def store_get_def session_db1_def)
  have g: "\<not> (falsy (trimmed_value (Some (js ''   '')))
              \<and> currentFileContent \<lparr>projects = [demo_ideas], currentProject = Some demo_ideas,
                    currentFileContent = Some demo_file\<rparr> = None)"
    by simp
  have c: "currentProject \<lparr>projects = [demo_ideas], currentProject = Some demo_ideas,
                    currentFileContent = Some demo_file\<rparr> = Some demo_ideas"
    by simp
  have p: "store_put fst (js ''contentId'', 2) (counters_store session_db1)
            = [(js ''contentId'', 2), (js ''projectId'', 2)]"
    by (simp add: session_db1_def)
  show ?thesis
    by (simp add: addContent_persists[OF c g] n p js_add_small newContent_def trimmed_value_def
          trim_blank
          demo_ids session_pm_def session_db_def session_content_def)
       (simp add: session_db1_def)
qed

lemma demo_session_run:
  "run_events demo_session start_pm init_db = (session_pm, session_db)"
  by (simp add: demo_session_def session_step1 returned_def session_step2 session_step3
        session_step4)

text \<open>
  C5. Each of the three operations that write a content record (\<^verbatim>\<open>addContent\<close>,
  \<^verbatim>\<open>saveContentEdit\<close>, \<^verbatim>\<open>saveContentFileEdit\<close>) takes a database in which every
  content record has non-empty text or a file to such a database, whatever the page
  state, the inputs and the storage failures; and every database the application
  reaches from a fresh one, one user action after the other, is such a database.
\<close>

theorem content_invariant:
  "(content_inv d \<longrightarrow>
      content_inv (store (addContent F now v p d))
      \<and> content_inv (store (saveContentEdit F now v k p d))
      \<and> content_inv (store (saveContentFileEdit F now v k p d)))
   \<and> (app_reachable q s \<longrightarrow> content_inv s)"
proof (intro conjI impI)
  assume "app_reachable q s"
  then show "content_inv s"
    by (induction rule: app_reachable.induct) (simp_all add: init_content_inv fire_content_inv)
qed (simp_all add: addContent_inv saveContentEdit_inv saveContentFileEdit_inv)

theorem content_invariant_witness:
  "content_inv demo_db
   \<and> content_inv (store (addContent no_faults (js ''2024-05-21T12:00:00.000Z'')
                           (Some (js ''   '')) demo_pm_file demo_db))
   \<and> content_inv (store (saveContentEdit no_faults (js ''2024-05-21T12:00:00.000Z'')
                           (Some (js ''   '')) 2 demo_pm_file demo_db))
   \<and> content_inv (store (saveContentFileEdit no_faults (js ''2024-05-21T12:00:00.000Z'')
                           (Some (js ''   '')) 2 demo_pm_file demo_db))
   \<and> app_reachable session_pm session_db
   \<and> content_inv session_db
   \<and> content_store session_db = [session_content]
   \<and> text' session_content = Some []
   \<and> file' session_content = Some demo_file"
proof -
  have a: "content_inv demo_db"
    by (simp add: content_inv_def content_ok_def falsy_def demo_db_def demo_hello_def
          demo_roses_def demo_note_def js_def)
  have "app_reachable (fst (run_events demo_session start_pm init_db))
          (snd (run_events demo_session start_pm init_db))"
    using app_reachable.start by (rule run_events_reachable)
  then have b: "app_reachable session_pm session_db"
    by (simp add: demo_session_run)
  show ?thesis
    using content_invariant[of demo_db no_faults "js ''2024-05-21T12:00:00.000Z''"
        "Some (js ''   '')" demo_pm_file 2 session_pm session_db] a b
    by (simp add: session_db_def session_content_def)
qed

section \<open>Content without a project\<close>




















end
